theory Spec2Isabelle
  imports Main "HOL-Library.Char_ord" "HOL-Library.List_Lexorder" "HOL-Library.Multiset"
begin

section \<open>Python string operations used by presidio\_config.py\<close>

text \<open>
  Strings are \<^typ>\<open>string\<close>, one \<^typ>\<open>char\<close> per code point, and the model covers
  ASCII text (every literal table of the program is ASCII, and the hispanic-name corpus
  goes through \<open>unidecode\<close>): characters from 128 on are treated as uncased and
  as non-space. Strings are compared as Python compares \<open>str\<close>, code point by code point
  (the orders of \<open>Char_ord\<close> and \<open>List_Lexorder\<close>).
\<close>

definition is_upper :: "char \<Rightarrow> bool" where
  "is_upper c \<longleftrightarrow> CHR ''A'' \<le> c \<and> c \<le> CHR ''Z''"

definition is_lower :: "char \<Rightarrow> bool" where
  "is_lower c \<longleftrightarrow> CHR ''a'' \<le> c \<and> c \<le> CHR ''z''"

definition is_cased :: "char \<Rightarrow> bool" where
  "is_cased c \<longleftrightarrow> is_upper c \<or> is_lower c"

definition upper :: "char \<Rightarrow> char" where
  "upper c = (if is_lower c then char_of (of_char c - (32::nat)) else c)"

definition lower :: "char \<Rightarrow> char" where
  "lower c = (if is_upper c then char_of (of_char c + (32::nat)) else c)"

text \<open>
  \<open>str.title()\<close>: a character that follows a cased character is lower-cased, any other
  character is upper-cased (so \<open>"o'neil"\<close> becomes \<open>"O'Neil"\<close>). The flag is
  CPython's \<open>previous_is_cased\<close>.
\<close>

fun title_from :: "bool \<Rightarrow> string \<Rightarrow> string" where
  "title_from previous_is_cased [] = []"
| "title_from previous_is_cased (c # cs) =
     (if previous_is_cased then lower c else upper c) # title_from (is_cased c) cs"

definition title :: "string \<Rightarrow> string" where
  "title s = title_from False s"

text \<open>\<open>str.isspace\<close> on ASCII: tab, LF, VT, FF, CR, the separators 0x1C to 0x1F, space.\<close>

definition isspace :: "char \<Rightarrow> bool" where
  "isspace c \<longleftrightarrow>
     c \<in> set [CHR 0x09, CHR 0x0A, CHR 0x0B, CHR 0x0C, CHR 0x0D,
               CHR 0x1C, CHR 0x1D, CHR 0x1E, CHR 0x1F, CHR '' '']"

text \<open>
  \<open>s.split(sep)\<close> for a one-character separator: one cut at every occurrence of
  \<open>sep\<close>, so \<open>k\<close> separators give \<open>k + 1\<close> pieces, empty pieces included
  (\<open>"a  b".split(" ") == ["a", "", "b"]\<close>, \<open>"".split(" ") == [""]\<close>).
\<close>

fun split_sep :: "char \<Rightarrow> string \<Rightarrow> string list" where
  "split_sep sep [] = [[]]"
| "split_sep sep (c # cs) =
     (if c = sep then [] # split_sep sep cs
      else (case split_sep sep cs of
              w # ws \<Rightarrow> (c # w) # ws
            | [] \<Rightarrow> [[c]]))"

text \<open>\<open>s.split(sep)[0]\<close>; the list of pieces is never empty, so no IndexError.\<close>

definition first_piece :: "char \<Rightarrow> string \<Rightarrow> string" where
  "first_piece sep s = (case split_sep sep s of w # ws \<Rightarrow> w | [] \<Rightarrow> [])"

text \<open>
  \<open>s.split()\<close> without argument: the maximal runs of non-space characters; leading,
  trailing and repeated white space gives no piece. The first argument is the word
  read so far.
\<close>

fun split_ws_from :: "string \<Rightarrow> string \<Rightarrow> string list" where
  "split_ws_from w [] = (if w = [] then [] else [w])"
| "split_ws_from w (c # cs) =
     (if isspace c then (if w = [] then split_ws_from [] cs else w # split_ws_from [] cs)
      else split_ws_from (w @ [c]) cs)"

definition split_ws :: "string \<Rightarrow> string list" where
  "split_ws s = split_ws_from [] s"

text \<open>\<open>sep.join(ws)\<close>.\<close>

fun join :: "string \<Rightarrow> string list \<Rightarrow> string" where
  "join sep [] = []"
| "join sep [w] = w"
| "join sep (w # ws) = w @ sep @ join sep ws"

text \<open>
  \<open>re.sub(r"\(.*?\)", "", item)\<close>. The pattern matches at an opening parenthesis when a
  closing one follows with no line feed in between (\<open>.\<close> does not match a line feed),
  and, being lazy, ends at the first closing parenthesis. \<open>closes cs\<close> says that the
  text after an opening parenthesis lets the pattern match; \<open>re_sub_from inside\<close> copies
  the text outside the matches, \<open>inside\<close> telling that a match is being skipped.
\<close>

fun closes :: "string \<Rightarrow> bool" where
  "closes [] = False"
| "closes (c # cs) =
     (if c = CHR '')'' then True else if c = CHR 0x0A then False else closes cs)"

fun re_sub_from :: "bool \<Rightarrow> string \<Rightarrow> string" where
  "re_sub_from inside [] = []"
| "re_sub_from inside (c # cs) =
     (if inside then (if c = CHR '')'' then re_sub_from False cs else re_sub_from True cs)
      else if c = CHR ''('' \<and> closes cs then re_sub_from True cs
      else c # re_sub_from False cs)"

definition re_sub_parens :: "string \<Rightarrow> string" where
  "re_sub_parens item = re_sub_from False item"

section \<open>Corpus files\<close>

text \<open>
  A field of the frequency column as \<open>pandas.read_csv\<close> delivers it: a number, a
  missing value (NaN), or text that is not a number. The program has no handler of its
  own: comparing a column that holds text with \<open>top_n\<close> raises \<open>TypeError\<close>, and a
  missing value compares as false. A name field is text or is missing: \<open>None\<close> is the
  NaN that pandas delivers for a missing name.
\<close>

datatype cell = Num int | NaN | Str string

text \<open>
  The exceptions that leave the program: \<open>TypeError\<close> from the comparison of a text
  column with \<open>top_n\<close>, \<open>EmptyDataError\<close> from \<open>read_csv\<close> on a file without
  columns to parse, \<open>AttributeError\<close> from \<open>name.split\<close> on a name that is NaN.
\<close>

datatype error = TypeError | EmptyDataError | AttributeError

record txt_row =
  Name :: "string option"
  Gender :: string
  Number :: cell

text \<open>A row of a \<open>.csv\<close> file: column 0 (the name, possibly missing) and column 1.\<close>

record csv_row =
  col0 :: "string option"
  col1 :: cell

text \<open>\<open>column > top_n\<close>, the boolean mask of the selection.\<close>

fun series_gt :: "cell list \<Rightarrow> int \<Rightarrow> error + bool list" where
  "series_gt [] top_n = Inr []"
| "series_gt (c # cs) top_n =
     (case c of
        Str s \<Rightarrow> Inl TypeError
      | NaN \<Rightarrow> (case series_gt cs top_n of Inl e \<Rightarrow> Inl e | Inr bs \<Rightarrow> Inr (False # bs))
      | Num k \<Rightarrow> (case series_gt cs top_n of Inl e \<Rightarrow> Inl e | Inr bs \<Rightarrow> Inr ((k > top_n) # bs)))"

text \<open>\<open>data[mask]\<close>: the rows whose mask entry is true.\<close>

definition select_rows :: "'a list \<Rightarrow> bool list \<Rightarrow> 'a list" where
  "select_rows data keep = map fst (filter snd (zip data keep))"

text \<open>
  The files that \<open>glob\<close> finds are given as the list of their parsed rows, in the order
  \<open>glob\<close> yields them. The loop extends \<open>name_list\<close> file by file and stops at the
  first file that raises. The \<open>.txt\<close> files are read with the three column names
  given, so a file without rows is an empty table, and \<open>data["Name"]\<close> is appended as
  it is: a missing name goes into \<open>name_list\<close> as NaN.
\<close>

fun process_name_txt_files ::
  "txt_row list list \<Rightarrow> string option list \<Rightarrow> int \<Rightarrow> error + string option list" where
  "process_name_txt_files [] name_list top_n = Inr name_list"
| "process_name_txt_files (data # files) name_list top_n =
     (case series_gt (map Number data) top_n of
        Inl e \<Rightarrow> Inl e
      | Inr keep \<Rightarrow>
          process_name_txt_files files (name_list @ map Name (select_rows data keep)) top_n)"

text \<open>
  The \<open>.csv\<close> files are read with \<open>header=None, skiprows=1\<close> and no column names:
  when nothing follows the skipped first line, \<open>read_csv\<close> raises
  \<open>EmptyDataError\<close>. Names that are missing are dropped (\<open>dropna\<close>), the others are
  transliterated by \<open>unidecode\<close>, a function of an external library that the model
  takes as a parameter.
\<close>

definition dropna :: "'a option list \<Rightarrow> 'a list" where
  "dropna xs = concat (map (\<lambda>x. case x of None \<Rightarrow> [] | Some v \<Rightarrow> [v]) xs)"

fun process_name_csv_files ::
  "(string \<Rightarrow> string) \<Rightarrow> csv_row list list \<Rightarrow> string option list \<Rightarrow> int \<Rightarrow>
   error + string option list" where
  "process_name_csv_files unidecode [] name_list top_n = Inr name_list"
| "process_name_csv_files unidecode (file # files) name_list top_n =
     (let data = drop 1 file in
      if data = [] then Inl EmptyDataError
      else case series_gt (map col1 data) top_n of
        Inl e \<Rightarrow> Inl e
      | Inr keep \<Rightarrow>
          process_name_csv_files unidecode files
            (name_list @ map (\<lambda>item. Some (unidecode item))
               (dropna (map col0 (select_rows data keep)))) top_n)"

section \<open>List compilation\<close>

definition get_unique_names :: "string list \<Rightarrow> string list \<Rightarrow> string list" where
  "get_unique_names name_list remove_list =
     (let name_list = sorted_list_of_set
            (set (concat (map (\<lambda>name. map title (split_sep CHR '' '' name)) name_list)))
      in filter (\<lambda>name. name \<notin> set remove_list) name_list)"

definition get_datetime_recognizer :: "string list \<Rightarrow> string list \<Rightarrow> string list \<Rightarrow> string list" where
  "get_datetime_recognizer month_list week_list time_list = month_list @ week_list @ time_list"

text \<open>
  \<open>list(set(xs))\<close> lists the distinct elements of \<open>xs\<close> in an order that Python does
  not fix; the model takes the conversion as a parameter \<open>list_set\<close>, and
  \<open>is_list_set\<close> says what is known of it: its result is a rearrangement of the
  distinct elements of its argument.
\<close>

definition is_list_set :: "(string list \<Rightarrow> string list) \<Rightarrow> bool" where
  "is_list_set list_set \<longleftrightarrow> (\<forall>xs. mset (list_set xs) = mset (remdups xs))"

definition get_email_recognizer :: "(string list \<Rightarrow> string list) \<Rightarrow> string list \<Rightarrow> string list" where
  "get_email_recognizer list_set email_domains =
     list_set (map (\<lambda>domain. title (first_piece CHR ''.'' domain)) email_domains)"

definition generate_location_list ::
  "string list \<Rightarrow> string list \<Rightarrow> string list \<Rightarrow> string list \<Rightarrow> string list" where
  "generate_location_list country_names state_names city_names airport_names =
     (let location_list = sorted_list_of_set
            (set (country_names @ state_names @ city_names @ airport_names))
      in map (\<lambda>item. title (join '' '' (split_ws (re_sub_parens item)))) location_list)"

section \<open>The single-character pattern\<close>

text \<open>
  The pattern \<open>(?<= )([B-HJ-Z])(?= )\<close> is handed to \<open>PatternRecognizer\<close> with no
  flags of its own, and the recognizer compiles its patterns with
  \<open>re.DOTALL | re.MULTILINE | re.IGNORECASE\<close>. The pattern has no dot and no anchor,
  so only \<open>IGNORECASE\<close> bears on it: a character is in the class when it, its lower
  case or its upper case lies in one of the two ranges. \<open>finditer\<close> tries every
  position from left to right; a position matches when its character is in the class,
  the character before it is a space and the character after it is a space. A match is
  the pair of its start and end offsets.
\<close>

definition in_ranges :: "char \<Rightarrow> bool" where
  "in_ranges c \<longleftrightarrow> (CHR ''B'' \<le> c \<and> c \<le> CHR ''H'') \<or> (CHR ''J'' \<le> c \<and> c \<le> CHR ''Z'')"

definition in_class :: "char \<Rightarrow> bool" where
  "in_class c \<longleftrightarrow> in_ranges c \<or> in_ranges (lower c) \<or> in_ranges (upper c)"

fun finditer_from :: "nat \<Rightarrow> char option \<Rightarrow> string \<Rightarrow> (nat \<times> nat) list" where
  "finditer_from i prev [] = []"
| "finditer_from i prev (c # cs) =
     (if prev = Some CHR '' '' \<and> in_class c \<and> (case cs of [] \<Rightarrow> False | d # ds \<Rightarrow> d = CHR '' '')
      then (i, i + 1) # finditer_from (i + 1) (Some c) cs
      else finditer_from (i + 1) (Some c) cs)"

definition single_char_matches :: "string \<Rightarrow> (nat \<times> nat) list" where
  "single_char_matches text = finditer_from 0 None text"

section \<open>The registry built by run\<close>

definition remove_list :: "string list" where
  "remove_list = [''A'', ''Job'', ''You'', ''West'', ''Don'', ''Young'', ''Ma'', ''Said'',
                  ''Bye Bye'', ''Okay'', ''Perfect'']"

definition month_list :: "string list" where
  "month_list = [''January'', ''February'', ''March'', ''April'', ''June'', ''July'',
                 ''August'', ''September'', ''October'', ''November'', ''December'']"

definition week_list :: "string list" where
  "week_list = [''Monday'', ''Tuesday'', ''Wednesday'', ''Thursday'', ''Friday'',
                ''Saturday'', ''Sunday'']"

definition time_list :: "string list" where
  "time_list = [''Noon'', ''Midnight'']"

definition email_domains :: "string list" where
  "email_domains = [''aol.com'', ''att.net'', ''comcast.net'', ''facebook.com'', ''gmail.com'',
                    ''gmx.com'', ''googlemail.com'', ''google.com'', ''hotmail.com'', ''mac.com'',
                    ''microsoft.com'', ''msn.com'', ''verizon.net'', ''yahoo.com'']"

text \<open>The deny-lists of the four deny-list recognizers that \<open>run\<close> registers.\<close>

record registry =
  person :: "string list"
  location :: "string list"
  date_time :: "string list"
  email_domain :: "string list"

text \<open>
  \<open>run\<close> reads the two corpora with the default \<open>top_n = 1000\<close>, adds four names,
  compiles the four lists and hands each to its recognizer. Its inputs are what it takes
  from outside: the rows of the corpus files, \<open>unidecode\<close> and the order of
  \<open>list(set(...))\<close>. \<open>get_unique_names\<close> calls \<open>name.split\<close> on every element of
  \<open>name_list\<close>, which raises \<open>AttributeError\<close> on a NaN. The four location tables
  are arguments of \<open>run\<close> here, so that what does not depend on their entries is
  stated for all tables; the tables that the program passes are the literal lists
  \<open>country_names\<close>, \<open>state_names\<close>, \<open>city_names\<close> and \<open>airport_names\<close> below.
\<close>

definition run ::
  "(string \<Rightarrow> string) \<Rightarrow> (string list \<Rightarrow> string list) \<Rightarrow> txt_row list list \<Rightarrow> csv_row list list \<Rightarrow>
   string list \<Rightarrow> string list \<Rightarrow> string list \<Rightarrow> string list \<Rightarrow> error + registry" where
  "run unidecode list_set txt_files csv_files country_names state_names city_names airport_names =
     (case process_name_txt_files txt_files [] 1000 of
        Inl e \<Rightarrow> Inl e
      | Inr name_list \<Rightarrow>
     (case process_name_csv_files unidecode csv_files name_list 1000 of
        Inl e \<Rightarrow> Inl e
      | Inr name_list \<Rightarrow>
     (let name_list = name_list @ map Some [''Maryellen'', ''Chantelle'', ''Kirkland'', ''Johnston'']
      in case those name_list of
        None \<Rightarrow> Inl AttributeError
      | Some names \<Rightarrow>
     (let unique_names = get_unique_names names remove_list;
          location_list = generate_location_list country_names state_names city_names airport_names
      in Inr \<lparr> person = unique_names,
               location = location_list,
               date_time = get_datetime_recognizer month_list week_list time_list,
               email_domain = get_email_recognizer list_set email_domains \<rparr>))))"

text \<open>The four location tables in the body of \<open>run\<close>: 713 entries.\<close>

definition country_names :: "string list" where
  "country_names =
     [''United States'', ''America'', ''Canada'', ''Afghanistan'', ''Albania'',
      ''Algeria'', ''American Samoa'', ''Andorra'', ''Angola'', ''Anguilla'',
      ''Antarctica'', ''Antigua and Barbuda'', ''Argentina'', ''Armenia'', ''Aruba'',
      ''Australia'', ''Austria'', ''Azerbaijan'', ''Bahamas'', ''Bahrain'',
      ''Bangladesh'', ''Barbados'', ''Belarus'', ''Belgium'', ''Belize'', ''Benin'',
      ''Bermuda'', ''Bhutan'', ''Bolivia'', ''Bosnia and Herzegovina'', ''Botswana'',
      ''Bouvet Island'', ''Brazil'', ''British Indian Ocean Territory'',
      ''Brunei Darussalam'', ''Bulgaria'', ''Burkina Faso'', ''Burundi'', ''Cambodia'',
      ''Cameroon'', ''Cape Verde'', ''Cayman Islands'', ''Central African Republic'',
      ''Chad'', ''Chile'', ''China'', ''Christmas Island'', ''Cocos (Keeling) Islands'',
      ''Colombia'', ''Comoros'', ''Congo'', ''Cook Islands'', ''Costa Rica'',
      ''Croatia (Hrvatska)'', ''Cuba'', ''Cyprus'', ''Czech Republic'', ''Denmark'',
      ''Djibouti'', ''Dominica'', ''Dominican Republic'', ''East Timor'', ''Ecudaor'',
      ''Egypt'', ''El Salvador'', ''Equatorial Guinea'', ''Eritrea'', ''Estonia'',
      ''Ethiopia'', ''Falkland Islands'', ''Faroe Islands'', ''Fiji'', ''Finland'',
      ''France'', ''France, Metropolitan'', ''French Guiana'', ''French Polynesia'',
      ''French Southern Territories'', ''Gabon'', ''Gambia'', ''Georgia'', ''Germany'',
      ''Ghana'', ''Gibraltar'', ''Greece'', ''Greenland'', ''Grenada'', ''Guadeloupe'',
      ''Guam'', ''Guatemala'', ''Guinea'', ''Guinea-Bissau'', ''Guyana'', ''Haiti'',
      ''Heard and Mc Donald Islands'', ''Honduras'', ''Hong Kong'', ''Hungary'',
      ''Iceland'', ''India'', ''Indonesia'', ''Iran'', ''Iraq'', ''Ireland'', ''Israel'',
      ''Italy'', ''Ivory Coast'', ''Jamaica'', ''Japan'', ''Jordan'', ''Kazakhstan'',
      ''Kenya'', ''Kiribati'', ''Korea'', ''Kosovo'', ''Kuwait'', ''Kyrgyzstan'',
      ''Laos'', ''Latvia'', ''Lebanon'', ''Lesotho'', ''Liberia'', ''Libya'',
      ''Liechtenstein'', ''Lithuania'', ''Luxembourg'', ''Macau'', ''Macedonia'',
      ''Madagascar'', ''Malawi'', ''Malaysia'', ''Maldives'', ''Mali'', ''Malta'',
      ''Marshall Islands'', ''Martinique'', ''Mauritania'', ''Mauritius'', ''Mayotte'',
      ''Mexico'', ''Micronesia'', ''Moldova'', ''Monaco'', ''Mongolia'', ''Montserrat'',
      ''Morocco'', ''Mozambique'', ''Myanmar'', ''Namibia'', ''Nauru'', ''Nepal'',
      ''Netherlands'', ''Netherlands Antilles'', ''New Caledonia'', ''New Zealand'',
      ''Nicaragua'', ''Niger'', ''Nigeria'', ''Niue'', ''Norfork Island'',
      ''Northern Mariana Islands'', ''Norway'', ''Oman'', ''Pakistan'', ''Palau'',
      ''Panama'', ''Papua New Guinea'', ''Paraguay'', ''Peru'', ''Philippines'',
      ''Pitcairn'', ''Poland'', ''Portugal'', ''Puerto Rico'', ''Qatar'', ''Reunion'',
      ''Romania'', ''Russian Federation'', ''Rwanda'', ''Saint Kitts and Nevis'',
      ''Saint Lucia'', ''Saint Vincent and the Grenadines'', ''Samoa'', ''San Marino'',
      ''Sao Tome and Principe'', ''Saudi Arabia'', ''Senegal'', ''Seychelles'',
      ''Sierra Leone'', ''Singapore'', ''Slovakia'', ''Slovenia'', ''Solomon Islands'',
      ''Somalia'', ''South Africa'', ''South Georgia South Sandwich Islands'',
      ''South Sudan'', ''Spain'', ''Sri Lanka'', ''St. Helena'',
      ''St. Pierre and Miquelon'', ''Sudan'', ''Suriname'',
      ''Svalbarn and Jan Mayen Islands'', ''Swaziland'', ''Sweden'', ''Switzerland'',
      ''Syrian Arab Republic'', ''Taiwan'', ''Tajikistan'',
      ''Tanzania, United Republic of'', ''Thailand'', ''Togo'', ''Tokelau'', ''Tonga'',
      ''Trinidad and Tobago'', ''Tunisia'', ''Turkey'', ''Turkmenistan'',
      ''Turks and Caicos Islands'', ''Tuvalu'', ''Uganda'', ''Ukraine'',
      ''United Arab Emirates'', ''United Kingdom'',
      ''United States minor outlying islands'', ''Uruguay'', ''Uzbekistan'', ''Vanuatu'',
      ''Vatican City State'', ''Venezuela'', ''Vietnam'', ''Virigan Islands'',
      ''Wallis and Futuna Islands'', ''Western Sahara'', ''Yemen'', ''Yugoslavia'',
      ''Zaire'', ''Zambia'', ''Zimbabwe'']"

definition state_names :: "string list" where
  "state_names =
     [''Alaska'', ''Alabama'', ''Arkansas'', ''American Samoa'', ''Arizona'',
      ''California'', ''Colorado'', ''Connecticut'', ''District Of Columbia'',
      ''Delaware'', ''Florida'', ''Georgia'', ''Guam'', ''Hawaii'', ''Iowa'', ''Idaho'',
      ''Illinois'', ''Indiana'', ''Kansas'', ''Kentucky'', ''Louisiana'',
      ''Massachusetts'', ''Maryland'', ''Maine'', ''Michigan'', ''Minnesota'',
      ''Missouri'', ''Mississippi'', ''Montana'', ''North Carolina'', ''North Dakota'',
      ''Nebraska'', ''New Hampshire'', ''New Jersey'', ''New Mexico'', ''Nevada'',
      ''New York'', ''Ohio'', ''Oklahoma'', ''Oregon'', ''Pennsylvania'',
      ''Puerto Rico'', ''Rhode Island'', ''South Carolina'', ''South Dakota'',
      ''Tennessee'', ''Texas'', ''Utah'', ''Virginia'', ''Virgin Islands'', ''Vermont'',
      ''Washington'', ''Wisconsin'', ''West Virginia'', ''Wyoming'']"

definition city_names :: "string list" where
  "city_names =
     [''Aberdeen'', ''Abilene'', ''Akron'', ''Albany'', ''Albuquerque'', ''Alexandria'',
      ''Allentown'', ''Amarillo'', ''Anaheim'', ''Anchorage'', ''Ann Arbor'',
      ''Antioch'', ''Apple Valley'', ''Appleton'', ''Arlington'', ''Arvada'',
      ''Asheville'', ''Athens'', ''Atlanta'', ''Atlantic City'', ''Augusta'', ''Aurora'',
      ''Austin'', ''Bakersfield'', ''Baltimore'', ''Barnstable'', ''Baton Rouge'',
      ''Beaumont'', ''Bel Air'', ''Bellevue'', ''Berkeley'', ''Bethlehem'', ''Billings'',
      ''Birmingham'', ''Bloomington'', ''Boise'', ''Boise City'', ''Bonita Springs'',
      ''Boston'', ''Boulder'', ''Bradenton'', ''Bremerton'', ''Bridgeport'',
      ''Brighton'', ''Brownsville'', ''Bryan'', ''Buffalo'', ''Burbank'', ''Burlington'',
      ''Cambridge'', ''Canton'', ''Cape Coral'', ''Carrollton'', ''Cary'',
      ''Cathedral City'', ''Cedar Rapids'', ''Champaign'', ''Chandler'', ''Charleston'',
      ''Charlotte'', ''Chattanooga'', ''Chesapeake'', ''Chicago'', ''Chula Vista'',
      ''Cincinnati'', ''Clarke County'', ''Clarksville'', ''Clearwater'', ''Cleveland'',
      ''College Station'', ''Colorado Springs'', ''Columbia'', ''Columbus'', ''Concord'',
      ''Coral Springs'', ''Corona'', ''Corpus Christi'', ''Costa Mesa'', ''Dallas'',
      ''Daly City'', ''Danbury'', ''Davenport'', ''Davidson County'', ''Dayton'',
      ''Daytona Beach'', ''Deltona'', ''Denton'', ''Denver'', ''Des Moines'',
      ''Detroit'', ''Downey'', ''Duluth'', ''Durham'', ''El Monte'', ''El Paso'',
      ''Elizabeth'', ''Elk Grove'', ''Elkhart'', ''Erie'', ''Escondido'', ''Eugene'',
      ''Evansville'', ''Fairfield'', ''Fargo'', ''Fayetteville'', ''Fitchburg'',
      ''Flint'', ''Fontana'', ''Fort Collins'', ''Fort Lauderdale'', ''Fort Smith'',
      ''Fort Walton Beach'', ''Fort Wayne'', ''Fort Worth'', ''Frederick'', ''Fremont'',
      ''Fresno'', ''Fullerton'', ''Gainesville'', ''Garden Grove'', ''Garland'',
      ''Gastonia'', ''Gilbert'', ''Glendale'', ''Grand Prairie'', ''Grand Rapids'',
      ''Grayslake'', ''Green Bay'', ''GreenBay'', ''Greensboro'', ''Greenville'',
      ''Gulfport-Biloxi'', ''Hagerstown'', ''Hampton'', ''Harlingen'', ''Harrisburg'',
      ''Hartford'', ''Havre de Grace'', ''Hayward'', ''Hemet'', ''Henderson'',
      ''Hesperia'', ''Hialeah'', ''Hickory'', ''High Point'', ''Hollywood'',
      ''Honolulu'', ''Houma'', ''Houston'', ''Howell'', ''Huntington'',
      ''Huntington Beach'', ''Huntsville'', ''Independence'', ''Indianapolis'',
      ''Inglewood'', ''Irvine'', ''Irving'', ''Jackson'', ''Jacksonville'',
      ''Jefferson'', ''Jersey City'', ''Johnson City'', ''Joliet'', ''Kailua'',
      ''Kalamazoo'', ''Kaneohe'', ''Kansas City'', ''Kennewick'', ''Kenosha'',
      ''Killeen'', ''Kissimmee'', ''Knoxville'', ''Lacey'', ''Lafayette'',
      ''Lake Charles'', ''Lakeland'', ''Lakewood'', ''Lancaster'', ''Lansing'',
      ''Laredo'', ''Las Cruces'', ''Las Vegas'', ''Layton'', ''Leominster'',
      ''Lewisville'', ''Lexington'', ''Lincoln'', ''Little Rock'', ''Long Beach'',
      ''Lorain'', ''Los Angeles'', ''Louisville'', ''Lowell'', ''Lubbock'', ''Macon'',
      ''Madison'', ''Manchester'', ''Marina'', ''Marysville'', ''McAllen'', ''McHenry'',
      ''Medford'', ''Melbourne'', ''Memphis'', ''Merced'', ''Mesa'', ''Mesquite'',
      ''Miami'', ''Milwaukee'', ''Minneapolis'', ''Miramar'', ''Mission Viejo'',
      ''Mobile'', ''Modesto'', ''Monroe'', ''Monterey'', ''Montgomery'',
      ''Moreno Valley'', ''Murfreesboro'', ''Murrieta'', ''Muskegon'', ''Myrtle Beach'',
      ''Naperville'', ''Naples'', ''Nashua'', ''Nashville'', ''New Bedford'',
      ''New Haven'', ''New London'', ''New Orleans'', ''New York'', ''New York City'',
      ''Newark'', ''Newburgh'', ''Newport News'', ''Norfolk'', ''Normal'', ''Norman'',
      ''North Charleston'', ''North Las Vegas'', ''North Port'', ''Norwalk'',
      ''Norwich'', ''Oakland'', ''Ocala'', ''Oceanside'', ''Odessa'', ''Ogden'',
      ''Oklahoma City'', ''Olathe'', ''Olympia'', ''Omaha'', ''Ontario'', ''Orange'',
      ''Orem'', ''Orlando'', ''Overland Park'', ''Oxnard'', ''Palm Bay'',
      ''Palm Springs'', ''Palmdale'', ''Panama City'', ''Pasadena'', ''Paterson'',
      ''Pembroke Pines'', ''Pensacola'', ''Peoria'', ''Philadelphia'', ''Phoenix'',
      ''Pittsburgh'', ''Plano'', ''Pomona'', ''Pompano Beach'', ''Port Arthur'',
      ''Port Orange'', ''Port Saint Lucie'', ''Port St. Lucie'', ''Portland'',
      ''Portsmouth'', ''Poughkeepsie'', ''Providence'', ''Provo'', ''Pueblo'',
      ''Punta Gorda'', ''Racine'', ''Raleigh'', ''Rancho Cucamonga'', ''Reading'',
      ''Redding'', ''Reno'', ''Richland'', ''Richmond'', ''Richmond County'',
      ''Riverside'', ''Roanoke'', ''Rochester'', ''Rockford'', ''Roseville'',
      ''Round Lake Beach'', ''Sacramento'', ''Saginaw'', ''Saint Louis'', ''Saint Paul'',
      ''Saint Petersburg'', ''Salem'', ''Salinas'', ''Salt Lake City'', ''San Antonio'',
      ''San Bernardino'', ''San Buenaventura'', ''San Diego'', ''San Francisco'',
      ''San Jose'', ''Santa Ana'', ''Santa Barbara'', ''Santa Clara'', ''Santa Clarita'',
      ''Santa Cruz'', ''Santa Maria'', ''Santa Rosa'', ''Sarasota'', ''Savannah'',
      ''Scottsdale'', ''Scranton'', ''Seaside'', ''Seattle'', ''Sebastian'',
      ''Shreveport'', ''Simi Valley'', ''Sioux City'', ''Sioux Falls'', ''South Bend'',
      ''South Lyon'', ''Spartanburg'', ''Spokane'', ''Springdale'', ''Springfield'',
      ''St. Louis'', ''St. Paul'', ''St. Petersburg'', ''Stamford'',
      ''Sterling Heights'', ''Stockton'', ''Sunnyvale'', ''Syracuse'', ''Tacoma'',
      ''Tallahassee'', ''Tampa'', ''Temecula'', ''Tempe'', ''Thornton'',
      ''Thousand Oaks'', ''Toledo'', ''Topeka'', ''Torrance'', ''Trenton'', ''Tucson'',
      ''Tulsa'', ''Tuscaloosa'', ''Tyler'', ''Utica'', ''Vallejo'', ''Vancouver'',
      ''Vero Beach'', ''Victorville'', ''Virginia Beach'', ''Visalia'', ''Waco'',
      ''Warren'', ''Washington'', ''Waterbury'', ''Waterloo'', ''West Covina'',
      ''West Valley City'', ''Westminster'', ''Wichita'', ''Wilmington'', ''Winston'',
      ''Winter Haven'', ''Worcester'', ''Yakima'', ''Yonkers'', ''York'', ''Youngstown'']"

definition airport_names :: "string list" where
  "airport_names =
     [''London Heathrow'', ''Amsterdam'', ''Kuala Lumpur'', ''Tokyo Haneda'',
      ''Istanbul'', ''Seoul Incheon'', ''Paris'', ''Toronto'', ''Singapore'', ''Manila'',
      ''Dubai'', ''Soekarno Hatta'', ''Munich'', ''Sydney'', ''Delhi'', ''Madrid'',
      ''Bogota'', ''Fukuoka'', ''Shanghai Pudong'', ''Doha'', ''Mumbai'',
      ''Johannesburg'', ''Rome Fiumicino'', ''Athens'', ''Barcelona'', ''Taipei'',
      ''Taoyuan'', ''Guangzhou Baiyun'', ''Hanoi'', ''Riyadh'', ''Auckland'',
      ''Wellington'', ''Melbourne'']"

section \<open>Vocabulary of the specification\<close>

text \<open>
  The specification's list compiler, after its own words: split every term on white
  space into tokens, title-case every token, deduplicate, sort, remove the exclusions.
  It is compared below with \<open>get_unique_names\<close>, which is the code.
\<close>

definition spec_compile :: "string list \<Rightarrow> string list \<Rightarrow> string list" where
  "spec_compile rawTerms exclusions =
     filter (\<lambda>token. token \<notin> set exclusions)
       (sorted_list_of_set (set (map title (concat (map split_ws rawTerms)))))"

text \<open>The categories that have a deny-list, and the exclusion list of each.\<close>

datatype category = PERSON | LOCATION | DATE_TIME | EMAIL_DOMAIN

fun deny_list :: "registry \<Rightarrow> category \<Rightarrow> string list" where
  "deny_list reg PERSON = person reg"
| "deny_list reg LOCATION = location reg"
| "deny_list reg DATE_TIME = date_time reg"
| "deny_list reg EMAIL_DOMAIN = email_domain reg"

fun exclusions :: "category \<Rightarrow> string list" where
  "exclusions PERSON = remove_list"
| "exclusions LOCATION = []"
| "exclusions DATE_TIME = []"
| "exclusions EMAIL_DOMAIN = []"

text \<open>
  The names of the twelve months and of the seven weekdays, which the specification
  refers to when it describes the DATE\_TIME deny-list.
\<close>

definition spec_month_names :: "string list" where
  "spec_month_names = [''January'', ''February'', ''March'', ''April'', ''May'', ''June'', ''July'',
                       ''August'', ''September'', ''October'', ''November'', ''December'']"

definition spec_weekday_names :: "string list" where
  "spec_weekday_names = [''Monday'', ''Tuesday'', ''Wednesday'', ''Thursday'', ''Friday'',
                         ''Saturday'', ''Sunday'']"

text \<open>
  What a frequency field contributes: \<open>exceeds top_n c\<close> holds when the field is a
  number greater than \<open>top_n\<close>, and \<open>is_text c\<close> when it is text that is not a number.
\<close>

fun exceeds :: "int \<Rightarrow> cell \<Rightarrow> bool" where
  "exceeds top_n (Num k) = (k > top_n)"
| "exceeds top_n NaN = False"
| "exceeds top_n (Str s) = False"

fun is_text :: "cell \<Rightarrow> bool" where
  "is_text (Str s) = True"
| "is_text (Num k) = False"
| "is_text NaN = False"

section \<open>Sorting by merging\<close>

text \<open>
  A merge sort that drops duplicates. It computes \<open>sorted_list_of_set (set xs)\<close>
  with few comparisons, which is how the list that \<open>generate_location_list\<close> builds
  from the tables of \<open>run\<close> is evaluated below; \<open>ascending\<close> checks in one pass
  that a list is strictly increasing.
\<close>

fun merge_uniq :: "'a::linorder list \<Rightarrow> 'a list \<Rightarrow> 'a list" where
  "merge_uniq [] ys = ys"
| "merge_uniq (x # xs) [] = x # xs"
| "merge_uniq (x # xs) (y # ys) =
     (if x < y then x # merge_uniq xs (y # ys)
      else if y < x then y # merge_uniq (x # xs) ys
      else x # merge_uniq xs ys)"

function msort_uniq :: "'a::linorder list \<Rightarrow> 'a list" where
  "msort_uniq xs =
     (if length xs \<le> 1 then xs
      else merge_uniq (msort_uniq (take (length xs div 2) xs))
                      (msort_uniq (drop (length xs div 2) xs)))"
  by pat_completeness auto
termination
  by (relation "measure length") auto

declare msort_uniq.simps [simp del]

fun ascending :: "'a::linorder list \<Rightarrow> bool" where
  "ascending [] = True"
| "ascending [x] = True"
| "ascending (x # y # zs) = (x < y \<and> ascending (y # zs))"

section \<open>Splitting, joining and title-casing\<close>

lemma split_sep_nonempty: "split_sep sep s \<noteq> []"
  by (induction s) (auto split: list.splits)

lemma split_sep_no_sep: "w \<in> set (split_sep sep s) \<Longrightarrow> sep \<notin> set w"
  by (induction s arbitrary: w) (auto split: if_splits list.splits)

lemma join_split_sep: "join [sep] (split_sep sep s) = s"
proof (induction s)
  case Nil
  show ?case by simp
next
  case (Cons c cs)
  obtain w ws where ws: "split_sep sep cs = w # ws"
    using split_sep_nonempty [of sep cs] by (cases "split_sep sep cs") auto
  with Cons show ?case by (cases ws) auto
qed

lemma of_char_upper:
  "(of_char (upper c) :: nat) = (if is_lower c then of_char c - 32 else of_char c)"
  unfolding upper_def is_lower_def less_eq_char_def
  by (auto simp: of_char_of)

lemma of_char_lower:
  "(of_char (lower c) :: nat) = (if is_upper c then of_char c + 32 else of_char c)"
  unfolding lower_def is_upper_def less_eq_char_def
  by (auto simp: of_char_of)

lemma upper_space: "upper c = CHR '' '' \<longleftrightarrow> c = CHR '' ''"
proof -
  have "upper c = CHR '' '' \<longleftrightarrow> (of_char (upper c) :: nat) = of_char (CHR '' '')"
    by (simp only: of_char_eq_iff)
  also have "\<dots> \<longleftrightarrow> (of_char c :: nat) = of_char (CHR '' '')"
    unfolding of_char_upper is_lower_def less_eq_char_def by auto
  also have "\<dots> \<longleftrightarrow> c = CHR '' ''" by (simp only: of_char_eq_iff)
  finally show ?thesis .
qed

lemma lower_space: "lower c = CHR '' '' \<longleftrightarrow> c = CHR '' ''"
proof -
  have "lower c = CHR '' '' \<longleftrightarrow> (of_char (lower c) :: nat) = of_char (CHR '' '')"
    by (simp only: of_char_eq_iff)
  also have "\<dots> \<longleftrightarrow> (of_char c :: nat) = of_char (CHR '' '')"
    unfolding of_char_lower is_upper_def less_eq_char_def by auto
  also have "\<dots> \<longleftrightarrow> c = CHR '' ''" by (simp only: of_char_eq_iff)
  finally show ?thesis .
qed

lemma space_title_from: "CHR '' '' \<in> set (title_from b s) \<longleftrightarrow> CHR '' '' \<in> set s"
proof (induction s arbitrary: b)
  case Nil
  show ?case by simp
next
  case (Cons c cs)
  have "(if b then lower c else upper c) = CHR '' '' \<longleftrightarrow> c = CHR '' ''"
    by (simp add: upper_space lower_space)
  then have "CHR '' '' = (if b then lower c else upper c) \<longleftrightarrow> CHR '' '' = c"
    by (simp only: eq_commute [of "CHR '' ''"])
  with Cons.IH [of "is_cased c"] show ?case by simp
qed

lemma space_title: "CHR '' '' \<in> set (title s) \<longleftrightarrow> CHR '' '' \<in> set s"
  by (simp add: title_def space_title_from)

lemma set_get_unique_names:
  "set (get_unique_names name_list rl) =
     title ` (\<Union>name \<in> set name_list. set (split_sep CHR '' '' name)) - set rl"
  by (auto simp: get_unique_names_def Let_def)

lemma sorted_get_unique_names: "sorted (get_unique_names name_list rl)"
  by (simp add: get_unique_names_def Let_def sorted_wrt_filter)

lemma distinct_get_unique_names: "distinct (get_unique_names name_list rl)"
  by (simp add: get_unique_names_def Let_def)

lemma no_space_get_unique_names:
  "name \<in> set (get_unique_names name_list rl) \<Longrightarrow> CHR '' '' \<notin> set name"
  by (auto simp: set_get_unique_names space_title dest: split_sep_no_sep)

lemma get_unique_names_remove_spaced:
  assumes "CHR '' '' \<in> set entry"
  shows "get_unique_names name_list (entry # rl) = get_unique_names name_list rl"
proof -
  have "filter (\<lambda>name. name \<notin> set (entry # rl)) xs = filter (\<lambda>name. name \<notin> set rl) xs"
    if "\<And>x. x \<in> set xs \<Longrightarrow> CHR '' '' \<notin> set x" for xs
    using that assms by (intro filter_cong) auto
  moreover have "CHR '' '' \<notin> set x"
    if "x \<in> set (sorted_list_of_set
           (set (concat (map (\<lambda>name. map title (split_sep CHR '' '' name)) name_list))))" for x
    using that by (auto simp: space_title dest: split_sep_no_sep)
  ultimately show ?thesis
    unfolding get_unique_names_def Let_def by blast
qed

section \<open>The location list and the registry\<close>

lemma run_Inr:
  assumes "run u ls txt csv c s ci a = Inr reg"
  shows "\<exists>name_list. person reg = get_unique_names name_list remove_list"
    and "location reg = generate_location_list c s ci a"
    and "date_time reg = get_datetime_recognizer month_list week_list time_list"
    and "email_domain reg = get_email_recognizer ls email_domains"
  using assms by (auto simp: run_def Let_def split: sum.splits option.splits)

lemma title_from_space:
  "title_from b (xs @ CHR '' '' # ys) = title_from b xs @ CHR '' '' # title_from False ys"
proof (induction xs arbitrary: b)
  case Nil
  have "upper CHR '' '' = CHR '' ''" "lower CHR '' '' = CHR '' ''" "\<not> is_cased CHR '' ''"
    by code_simp+
  then show ?case by simp
next
  case (Cons x xs)
  then show ?case by simp
qed

lemma join_Cons: "ws \<noteq> [] \<Longrightarrow> join sep (w # ws) = w @ sep @ join sep ws"
  by (cases ws) auto

lemma title_join: "title (join '' '' ws) = join '' '' (map title ws)"
proof (induction ws)
  case Nil
  show ?case by (simp add: title_def)
next
  case (Cons w ws)
  show ?case
  proof (cases "ws = []")
    case True
    then show ?thesis by simp
  next
    case False
    with Cons show ?thesis
      by (simp add: join_Cons title_def title_from_space)
  qed
qed

lemma set_generate_location_list:
  "set (generate_location_list c s ci a) =
     (\<lambda>item. join '' '' (map title (split_ws (re_sub_parens item)))) ` set (c @ s @ ci @ a)"
  unfolding generate_location_list_def Let_def title_join by simp

lemma length_generate_location_list:
  "length (generate_location_list c s ci a) = card (set (c @ s @ ci @ a))"
  unfolding generate_location_list_def Let_def by simp

lemma is_list_set_remdups: "is_list_set remdups"
  by (simp add: is_list_set_def)

lemma is_list_set_distinct:
  assumes "is_list_set ls"
  shows "distinct (ls xs)" and "set (ls xs) = set xs"
proof -
  from assms have m: "mset (ls xs) = mset (remdups xs)"
    by (simp add: is_list_set_def)
  have "distinct (ls xs) \<longleftrightarrow> distinct (remdups xs)"
    using m by (rule mset_eq_imp_distinct_iff)
  then show "distinct (ls xs)" by simp
  have "set (ls xs) = set (remdups xs)"
    using m by (rule mset_eq_setD)
  then show "set (ls xs) = set xs" by simp
qed

lemma date_time_not_sorted:
  "\<not> sorted (get_datetime_recognizer month_list week_list time_list)"
  by code_simp

section \<open>The location list of run\<close>

lemma set_merge_uniq: "set (merge_uniq xs ys) = set xs \<union> set ys"
  by (induction xs ys rule: merge_uniq.induct) auto

lemma sorted_merge_uniq:
  "sorted_wrt (<) xs \<Longrightarrow> sorted_wrt (<) ys \<Longrightarrow> sorted_wrt (<) (merge_uniq xs ys)"
proof (induction xs ys rule: merge_uniq.induct)
  case (1 ys)
  then show ?case by simp
next
  case (2 x xs)
  then show ?case by simp
next
  case (3 x xs y ys)
  show ?case
  proof (cases "x < y")
    case True
    with 3 show ?thesis
      by (auto simp: set_merge_uniq)
  next
    case False
    show ?thesis
    proof (cases "y < x")
      case True
      with False 3 show ?thesis
        by (auto simp: set_merge_uniq)
    next
      case nlt: False
      with False have "x = y" by simp
      with False nlt 3 show ?thesis
        by (auto simp: set_merge_uniq)
    qed
  qed
qed

lemma set_msort_uniq: "set (msort_uniq xs) = set xs"
proof (induction xs rule: msort_uniq.induct)
  case (1 xs)
  show ?case
  proof (cases "length xs \<le> 1")
    case True
    then show ?thesis by (subst msort_uniq.simps) simp
  next
    case False
    have "set (msort_uniq xs) =
        set (take (length xs div 2) xs) \<union> set (drop (length xs div 2) xs)"
      using False 1 by (subst msort_uniq.simps) (simp add: set_merge_uniq)
    also have "\<dots> = set (take (length xs div 2) xs @ drop (length xs div 2) xs)"
      by (simp only: set_append)
    finally show ?thesis by simp
  qed
qed

lemma sorted_msort_uniq: "sorted_wrt (<) (msort_uniq xs)"
proof (induction xs rule: msort_uniq.induct)
  case (1 xs)
  show ?case
  proof (cases "length xs \<le> 1")
    case True
    then have "xs = [] \<or> (\<exists>x. xs = [x])"
      by (cases xs) auto
    then have "sorted_wrt (<) xs" by auto
    with True show ?thesis by (subst msort_uniq.simps) simp
  next
    case False
    with 1 show ?thesis
      by (subst msort_uniq.simps) (simp add: sorted_merge_uniq)
  qed
qed

lemma msort_uniq_eq: "sorted_list_of_set (set xs) = msort_uniq xs"
proof -
  have "sorted (msort_uniq xs)" and "distinct (msort_uniq xs)"
    using sorted_msort_uniq [of xs] by (simp_all add: strict_sorted_iff)
  then have "sorted_list_of_set (set (msort_uniq xs)) = msort_uniq xs"
    by (rule sorted_list_of_set.idem_if_sorted_distinct)
  then show ?thesis by (simp only: set_msort_uniq)
qed

lemma ascending_iff: "ascending xs \<longleftrightarrow> sorted_wrt (<) xs"
proof (induction xs rule: ascending.induct)
  case 1
  show ?case by simp
next
  case (2 x)
  show ?case by simp
next
  case (3 x y zs)
  have "sorted_wrt (<) (x # y # zs) \<longleftrightarrow> x < y \<and> sorted_wrt (<) (y # zs)"
    by (rule sorted_wrt2) (rule transp_on_less)
  with 3 show ?case by simp
qed

lemma generate_location_list_msort:
  "generate_location_list c s ci a =
     map (\<lambda>item. title (join '' '' (split_ws (re_sub_parens item))))
       (msort_uniq (c @ s @ ci @ a))"
  by (simp add: generate_location_list_def Let_def msort_uniq_eq del: set_append)

lemma location_list_of_run:
  "sorted (generate_location_list country_names state_names city_names airport_names)"
  "distinct (generate_location_list country_names state_names city_names airport_names)"
proof -
  have "ascending (map (\<lambda>item. title (join '' '' (split_ws (re_sub_parens item))))
      (msort_uniq (country_names @ state_names @ city_names @ airport_names)))"
    by code_simp
  then have "sorted_wrt (<)
      (generate_location_list country_names state_names city_names airport_names)"
    by (simp only: ascending_iff generate_location_list_msort)
  then show "sorted (generate_location_list country_names state_names city_names airport_names)"
    and "distinct (generate_location_list country_names state_names city_names airport_names)"
    by (simp_all add: strict_sorted_iff)
qed

section \<open>Matches of the single-character pattern\<close>

lemma finditer_from_bounds:
  "(s, e) \<in> set (finditer_from i prev t) \<Longrightarrow> i \<le> s \<and> e = s + 1"
proof (induction t arbitrary: i prev)
  case Nil
  then show ?case by simp
next
  case (Cons c cs)
  from Cons.prems have "(s = i \<and> e = i + 1) \<or> (s, e) \<in> set (finditer_from (i + 1) (Some c) cs)"
    by (auto split: if_splits)
  then show ?case
    using Cons.IH [of "i + 1" "Some c"] by auto
qed

lemma finditer_from_iff:
  "(s, e) \<in> set (finditer_from i prev t) \<longleftrightarrow>
     e = s + 1 \<and> i \<le> s \<and> s - i + 1 < length t \<and> in_class (t ! (s - i)) \<and>
     (if s = i then prev = Some CHR '' '' else t ! (s - i - 1) = CHR '' '') \<and>
     t ! (s - i + 1) = CHR '' ''"
proof (induction t arbitrary: i prev)
  case Nil
  show ?case by simp
next
  case (Cons c cs)
  show ?case
  proof (cases "s = i")
    case True
    have "(i, e) \<notin> set (finditer_from (i + 1) (Some c) cs)"
      using finditer_from_bounds [of i e "i + 1" "Some c" cs] by auto
    then have "(s, e) \<in> set (finditer_from i prev (c # cs)) \<longleftrightarrow>
        prev = Some CHR '' '' \<and> in_class c \<and>
        (case cs of [] \<Rightarrow> False | d # ds \<Rightarrow> d = CHR '' '') \<and> e = i + 1"
      using True by auto
    also have "\<dots> \<longleftrightarrow> e = s + 1 \<and> i \<le> s \<and> s - i + 1 < length (c # cs) \<and>
        in_class ((c # cs) ! (s - i)) \<and>
        (if s = i then prev = Some CHR '' '' else (c # cs) ! (s - i - 1) = CHR '' '') \<and>
        (c # cs) ! (s - i + 1) = CHR '' ''"
      using True by (cases cs) auto
    finally show ?thesis .
  next
    case False
    have "(s, e) \<in> set (finditer_from i prev (c # cs)) \<longleftrightarrow>
            (s, e) \<in> set (finditer_from (i + 1) (Some c) cs)"
      using False by auto
    also have "\<dots> \<longleftrightarrow> e = s + 1 \<and> i + 1 \<le> s \<and> s - (i + 1) + 1 < length cs \<and>
        in_class (cs ! (s - (i + 1))) \<and>
        (if s = i + 1 then Some c = Some CHR '' '' else cs ! (s - (i + 1) - 1) = CHR '' '') \<and>
        cs ! (s - (i + 1) + 1) = CHR '' ''"
      by (rule Cons.IH)
    also have "\<dots> \<longleftrightarrow> e = s + 1 \<and> i \<le> s \<and> s - i + 1 < length (c # cs) \<and>
        in_class ((c # cs) ! (s - i)) \<and>
        (if s = i then prev = Some CHR '' '' else (c # cs) ! (s - i - 1) = CHR '' '') \<and>
        (c # cs) ! (s - i + 1) = CHR '' ''"
    proof (cases "i < s")
      case True
      then obtain k where k: "s = i + 1 + k"
        by (metis Suc_eq_plus1 less_iff_Suc_add add_Suc_right add_Suc)
      show ?thesis
        unfolding k by (cases k) auto
    next
      case False
      with \<open>s \<noteq> i\<close> show ?thesis by auto
    qed
    finally show ?thesis .
  qed
qed

lemma in_ranges_iff:
  "in_ranges c \<longleftrightarrow> is_upper c \<and> c \<noteq> CHR ''A'' \<and> c \<noteq> CHR ''I''"
proof -
  have "c = CHR ''A'' \<longleftrightarrow> (of_char c :: nat) = of_char CHR ''A''"
    and "c = CHR ''I'' \<longleftrightarrow> (of_char c :: nat) = of_char CHR ''I''"
    by (simp_all only: of_char_eq_iff)
  then show ?thesis
    unfolding in_ranges_def is_upper_def less_eq_char_def by auto
qed

lemma in_class_upper:
  "is_upper c \<Longrightarrow> c \<noteq> CHR ''A'' \<Longrightarrow> c \<noteq> CHR ''I'' \<Longrightarrow> in_class c"
  by (simp add: in_class_def in_ranges_iff)

lemma in_class_not_A_I: "in_class c \<Longrightarrow> c \<noteq> CHR ''A'' \<and> c \<noteq> CHR ''I''"
proof -
  have "\<not> in_class CHR ''A''" and "\<not> in_class CHR ''I''"
    by code_simp+
  then show "in_class c \<Longrightarrow> c \<noteq> CHR ''A'' \<and> c \<noteq> CHR ''I''"
    by auto
qed

lemma single_char_matches_iff:
  "(s, e) \<in> set (single_char_matches t) \<longleftrightarrow>
     0 < s \<and> e = s + 1 \<and> e < length t \<and>
     t ! (s - 1) = CHR '' '' \<and> t ! e = CHR '' '' \<and> in_class (t ! s)"
proof -
  have "(s, e) \<in> set (single_char_matches t) \<longleftrightarrow>
      e = s + 1 \<and> s + 1 < length t \<and> in_class (t ! s) \<and>
      (if s = 0 then None = Some CHR '' '' else t ! (s - 1) = CHR '' '') \<and>
      t ! (s + 1) = CHR '' ''"
    unfolding single_char_matches_def finditer_from_iff by simp
  also have "\<dots> \<longleftrightarrow> 0 < s \<and> e = s + 1 \<and> e < length t \<and>
      t ! (s - 1) = CHR '' '' \<and> t ! e = CHR '' '' \<and> in_class (t ! s)"
    by auto
  finally show ?thesis .
qed

lemma single_char_lower_case: "single_char_matches '' b c '' = [(1, 2), (3, 4)]"
  by code_simp

section \<open>Reading the corpus\<close>

lemma series_gt_Inr:
  "\<forall>c \<in> set cs. \<not> is_text c \<Longrightarrow> series_gt cs top_n = Inr (map (exceeds top_n) cs)"
proof (induction cs)
  case Nil
  show ?case by simp
next
  case (Cons c cs)
  then show ?case by (cases c) auto
qed


lemma series_gt_error: "series_gt cs top_n = Inl e \<Longrightarrow> \<exists>c \<in> set cs. is_text c"
  using series_gt_Inr [of cs top_n] by auto







section \<open>Claims about get\_unique\_names\<close>

text \<open>
  Claim C10. \<open>get_unique_names\<close> splits on the single space character only, so no
  element of its output contains a space; hence an exclusion-list entry that contains a
  space (such as \<open>"Bye Bye"\<close> in the list of \<open>run\<close>) equals no token, and taking all
  such entries out of the exclusion list never changes the output.
\<close>

theorem get_unique_names_space_free:
  "(\<forall>name \<in> set (get_unique_names name_list rl). CHR '' '' \<notin> set name) \<and>
   get_unique_names name_list (filter (\<lambda>entry. CHR '' '' \<notin> set entry) rl) =
     get_unique_names name_list rl"
proof
  show "\<forall>name \<in> set (get_unique_names name_list rl). CHR '' '' \<notin> set name"
    using no_space_get_unique_names by blast
  show "get_unique_names name_list (filter (\<lambda>entry. CHR '' '' \<notin> set entry) rl) =
          get_unique_names name_list rl"
  proof (induction rl)
    case Nil
    show ?case by simp
  next
    case (Cons entry rl)
    show ?case
    proof (cases "CHR '' '' \<in> set entry")
      case True
      with Cons show ?thesis by (simp add: get_unique_names_remove_spaced)
    next
      case False
      have "get_unique_names name_list (entry # xs) =
              filter (\<lambda>name. name \<noteq> entry) (get_unique_names name_list xs)" for xs
        by (simp add: get_unique_names_def Let_def conj_commute)
      with False Cons show ?thesis by simp
    qed
  qed
qed

text \<open>
  The instance of claim C10 at the exclusion list of \<open>run\<close>: with or without
  \<open>"Bye Bye"\<close> the names \<open>"Bye Bye"\<close> and \<open>"don jo"\<close> compile to the same list.
\<close>

theorem get_unique_names_space_free_witness:
  "get_unique_names [''Bye Bye'', ''don jo''] remove_list = [''Bye'', ''Jo''] \<and>
   CHR '' '' \<notin> set ''Bye'' \<and>
   get_unique_names [''Bye Bye'', ''don jo'']
       [''A'', ''Job'', ''You'', ''West'', ''Don'', ''Young'', ''Ma'', ''Said'', ''Okay'', ''Perfect''] =
     get_unique_names [''Bye Bye'', ''don jo''] remove_list"
proof -
  have f: "filter (\<lambda>entry. CHR '' '' \<notin> set entry) remove_list =
      [''A'', ''Job'', ''You'', ''West'', ''Don'', ''Young'', ''Ma'', ''Said'', ''Okay'', ''Perfect'']"
    by code_simp
  have v: "get_unique_names [''Bye Bye'', ''don jo''] remove_list = [''Bye'', ''Jo'']"
    by code_simp
  then have m: "''Bye'' \<in> set (get_unique_names [''Bye Bye'', ''don jo''] remove_list)"
    by simp
  note t = get_unique_names_space_free [of "[''Bye Bye'', ''don jo'']" remove_list]
  show ?thesis
    using v t [THEN conjunct1, THEN bspec, OF m] t [THEN conjunct2, unfolded f]
    by (intro conjI)
qed

text \<open>
  Claim C2, as stated, speaks of the white-space-split tokens. The code splits at the
  space character only: a tab does not separate (the first name below stays one entry
  with the tab inside), and two spaces in a row give the empty token.
\<close>

theorem whitespace_split_counterexample:
  "get_unique_names [''Mary'' @ [CHR 0x09] @ ''Ann''] [] = [''Mary'' @ [CHR 0x09] @ ''Ann''] \<and>
   spec_compile [''Mary'' @ [CHR 0x09] @ ''Ann''] [] = [''Ann'', ''Mary''] \<and>
   get_unique_names [''Mary  Ann''] [] = ['''', ''Ann'', ''Mary''] \<and>
   spec_compile [''Mary  Ann''] [] = [''Ann'', ''Mary'']"
  by code_simp

text \<open>
  Claim C2, amended. For every list of names and every exclusion list,
  \<open>get_unique_names\<close> returns the sorted, duplicate-free list of the title-cased
  tokens obtained by cutting each name at every single space character, without the
  tokens that occur in the exclusion list. The cut is at spaces only and loses nothing:
  joining the pieces with a space gives the name back, and no piece contains a space.
\<close>

theorem get_unique_names_compiles:
  "sorted (get_unique_names name_list rl) \<and>
   distinct (get_unique_names name_list rl) \<and>
   set (get_unique_names name_list rl) =
     title ` (\<Union>name \<in> set name_list. set (split_sep CHR '' '' name)) - set rl \<and>
   (\<forall>name. join '' '' (split_sep CHR '' '' name) = name \<and>
      (\<forall>token \<in> set (split_sep CHR '' '' name). CHR '' '' \<notin> set token))"
proof (intro conjI allI ballI)
  show "sorted (get_unique_names name_list rl)"
    by (rule sorted_get_unique_names)
  show "distinct (get_unique_names name_list rl)"
    by (rule distinct_get_unique_names)
  show "set (get_unique_names name_list rl) =
     title ` (\<Union>name \<in> set name_list. set (split_sep CHR '' '' name)) - set rl"
    by (rule set_get_unique_names)
  show "join '' '' (split_sep CHR '' '' name) = name" for name
    by (rule join_split_sep)
  show "CHR '' '' \<notin> set token" if "token \<in> set (split_sep CHR '' '' name)" for token name
    using that by (rule split_sep_no_sep)
qed

text \<open>The amended claim C2 at two names, one with two spaces in a row.\<close>

theorem get_unique_names_compiles_witness:
  "get_unique_names [''Mary  Ann'', ''ann LEE''] [''Lee''] = ['''', ''Ann'', ''Mary''] \<and>
   sorted (get_unique_names [''Mary  Ann'', ''ann LEE''] [''Lee'']) \<and>
   join '' '' (split_sep CHR '' '' ''Mary  Ann'') = ''Mary  Ann'' \<and>
   CHR '' '' \<notin> set ''Mary''"
proof -
  have v: "get_unique_names [''Mary  Ann'', ''ann LEE''] [''Lee''] = ['''', ''Ann'', ''Mary'']"
    by code_simp
  have m: "''Mary'' \<in> set (split_sep CHR '' '' ''Mary  Ann'')"
    by code_simp
  note t = get_unique_names_compiles [of "[''Mary  Ann'', ''ann LEE'']" "[''Lee'']"]
  note u = t [THEN conjunct2, THEN conjunct2, THEN conjunct2, THEN spec, of "''Mary  Ann''"]
  show ?thesis
    using v t [THEN conjunct1] u [THEN conjunct1] u [THEN conjunct2, THEN bspec, OF m]
    by (intro conjI)
qed

section \<open>Claims about the compiled lists\<close>

text \<open>
  Claim C3. No element of a compiled deny-list is a member of its category's exclusion
  set: the list of \<open>get_unique_names\<close> is disjoint from the exclusion list it was
  given, whatever the two are, and in the registry that \<open>run\<close> builds every category's
  deny-list is disjoint from that category's exclusions (\<open>remove_list\<close> for PERSON,
  nothing for the others).
\<close>

theorem exclusion_invariant:
  "set (get_unique_names name_list rl) \<inter> set rl = {} \<and>
   (run u ls txt csv c s ci a = Inr reg \<longrightarrow>
      set (deny_list reg cat) \<inter> set (exclusions cat) = {})"
proof (intro conjI impI)
  show disj: "set (get_unique_names name_list rl) \<inter> set rl = {}" for name_list rl
    by (simp add: set_get_unique_names Diff_disjoint inf_commute)
  assume r: "run u ls txt csv c s ci a = Inr reg"
  show "set (deny_list reg cat) \<inter> set (exclusions cat) = {}"
  proof (cases cat)
    case PERSON
    from run_Inr(1) [OF r] obtain nl where "person reg = get_unique_names nl remove_list" ..
    with PERSON show ?thesis by (simp add: disj)
  qed simp_all
qed

text \<open>
  Claim C3 at a run over one corpus file that holds the excluded name \<open>"Don"\<close>:
  the PERSON list comes out without it.
\<close>

theorem exclusion_invariant_witness:
  "run id remdups
     [[\<lparr>Name = Some ''Mary'', Gender = ''F'', Number = Num 7065\<rparr>,
       \<lparr>Name = Some ''Don'', Gender = ''M'', Number = Num 7065\<rparr>]] [] [''New York''] [] [] [] =
   Inr \<lparr>person = [''Chantelle'', ''Johnston'', ''Kirkland'', ''Mary'', ''Maryellen''],
        location = [''New York''],
        date_time = [''January'', ''February'', ''March'', ''April'', ''June'', ''July'',
                     ''August'', ''September'', ''October'', ''November'', ''December'',
                     ''Monday'', ''Tuesday'', ''Wednesday'', ''Thursday'', ''Friday'',
                     ''Saturday'', ''Sunday'', ''Noon'', ''Midnight''],
        email_domain = [''Aol'', ''Att'', ''Comcast'', ''Facebook'', ''Gmail'', ''Gmx'',
                        ''Googlemail'', ''Google'', ''Hotmail'', ''Mac'', ''Microsoft'', ''Msn'',
                        ''Verizon'', ''Yahoo'']\<rparr> \<and>
   set [''Chantelle'', ''Johnston'', ''Kirkland'', ''Mary'', ''Maryellen''] \<inter> set remove_list = {}"
proof -
  let ?reg = "\<lparr>person = [''Chantelle'', ''Johnston'', ''Kirkland'', ''Mary'', ''Maryellen''],
        location = [''New York''],
        date_time = [''January'', ''February'', ''March'', ''April'', ''June'', ''July'',
                     ''August'', ''September'', ''October'', ''November'', ''December'',
                     ''Monday'', ''Tuesday'', ''Wednesday'', ''Thursday'', ''Friday'',
                     ''Saturday'', ''Sunday'', ''Noon'', ''Midnight''],
        email_domain = [''Aol'', ''Att'', ''Comcast'', ''Facebook'', ''Gmail'', ''Gmx'',
                        ''Googlemail'', ''Google'', ''Hotmail'', ''Mac'', ''Microsoft'', ''Msn'',
                        ''Verizon'', ''Yahoo'']\<rparr>"
  have r: "run id remdups
     [[\<lparr>Name = Some ''Mary'', Gender = ''F'', Number = Num 7065\<rparr>,
       \<lparr>Name = Some ''Don'', Gender = ''M'', Number = Num 7065\<rparr>]] [] [''New York''] [] [] [] = Inr ?reg"
    by code_simp
  from exclusion_invariant [where cat = PERSON, THEN conjunct2, THEN mp, OF r]
  have "set (person ?reg) \<inter> set (exclusions PERSON) = {}" by simp
  then have "set [''Chantelle'', ''Johnston'', ''Kirkland'', ''Mary'', ''Maryellen''] \<inter> set remove_list = {}"
    by simp
  with r show ?thesis by (intro conjI)
qed

text \<open>
  Claim C4. The LOCATION compilation keeps a multi-word place name as one phrase:
  the entries of \<open>generate_location_list\<close> are exactly the input names with the
  parenthetical qualifiers stripped and their words, title-cased, joined by single
  spaces, so an input that contains \<open>"New York"\<close> gives a list that contains
  \<open>"New York"\<close>, by itself the single entry \<open>"New York"\<close>. The PERSON compilation
  splits names into tokens: \<open>"John Smith"\<close> and \<open>"Jane Smith"\<close> give the three entries
  \<open>"Jane"\<close>, \<open>"John"\<close>, \<open>"Smith"\<close>.
\<close>

theorem tokenization_asymmetry:
  "set (generate_location_list c s ci a) =
     (\<lambda>item. join '' '' (map title (split_ws (re_sub_parens item)))) ` set (c @ s @ ci @ a) \<and>
   (''New York'' \<in> set (c @ s @ ci @ a) \<longrightarrow> ''New York'' \<in> set (generate_location_list c s ci a)) \<and>
   generate_location_list [''New York''] [] [] [] = [''New York''] \<and>
   generate_location_list [''Cocos (Keeling) Islands''] [] [] [] = [''Cocos Islands''] \<and>
   get_unique_names [''John Smith'', ''Jane Smith''] [] = [''Jane'', ''John'', ''Smith'']"
proof (intro conjI impI)
  show "set (generate_location_list c s ci a) =
     (\<lambda>item. join '' '' (map title (split_ws (re_sub_parens item)))) ` set (c @ s @ ci @ a)"
    by (rule set_generate_location_list)
  have ny: "join '' '' (map title (split_ws (re_sub_parens ''New York''))) = ''New York''"
    by code_simp
  assume "''New York'' \<in> set (c @ s @ ci @ a)"
  then have "join '' '' (map title (split_ws (re_sub_parens ''New York'')))
      \<in> set (generate_location_list c s ci a)"
    unfolding set_generate_location_list by (rule imageI)
  then show "''New York'' \<in> set (generate_location_list c s ci a)"
    unfolding ny .
next
  show "generate_location_list [''New York''] [] [] [] = [''New York'']"
    by code_simp
  show "generate_location_list [''Cocos (Keeling) Islands''] [] [] [] = [''Cocos Islands'']"
    by code_simp
  show "get_unique_names [''John Smith'', ''Jane Smith''] [] = [''Jane'', ''John'', ''Smith'']"
    by code_simp
qed

text \<open>Claim C4 at a city table that holds \<open>"New York"\<close> among other names.\<close>

theorem tokenization_asymmetry_witness:
  "''New York'' \<in> set ([''Canada''] @ [] @ [''Boston'', ''New York''] @ []) \<and>
   ''New York'' \<in> set (generate_location_list [''Canada''] [] [''Boston'', ''New York''] []) \<and>
   generate_location_list [''Canada''] [] [''Boston'', ''New York''] [] =
     [''Boston'', ''Canada'', ''New York'']"
proof -
  have m: "''New York'' \<in> set ([''Canada''] @ [] @ [''Boston'', ''New York''] @ [])"
    by simp
  have v: "generate_location_list [''Canada''] [] [''Boston'', ''New York''] [] =
     [''Boston'', ''Canada'', ''New York'']"
    by code_simp
  note t = tokenization_asymmetry [of "[''Canada'']" "[]" "[''Boston'', ''New York'']" "[]"]
  show ?thesis
    using m t [THEN conjunct2, THEN conjunct1, THEN mp, OF m] v by (intro conjI)
qed

text \<open>
  Claim C9, as stated, says that a location that becomes empty is dropped. The code
  has no such filter: the location \<open>"(x)"\<close> becomes the empty string and the empty
  string is an entry of the list.
\<close>

theorem empty_location_counterexample:
  "title (join '' '' (split_ws (re_sub_parens ''(x)''))) = '''' \<and>
   generate_location_list [''(x)''] [] [] [] = ['''']"
  by code_simp

text \<open>
  Claim C9, amended. A location that becomes empty after stripping its parenthetical
  qualifier and collapsing white space is not dropped: it appears in the list of
  \<open>generate_location_list\<close> as the empty string, and the list has one entry for each
  distinct input name.
\<close>

theorem empty_location_kept:
  "(item \<in> set (c @ s @ ci @ a) \<and> title (join '' '' (split_ws (re_sub_parens item))) = '''' \<longrightarrow>
      '''' \<in> set (generate_location_list c s ci a)) \<and>
   length (generate_location_list c s ci a) = card (set (c @ s @ ci @ a))"
proof (intro conjI impI)
  assume "item \<in> set (c @ s @ ci @ a) \<and> title (join '' '' (split_ws (re_sub_parens item))) = ''''"
  then have i: "item \<in> set (c @ s @ ci @ a)"
    and e: "join '' '' (map title (split_ws (re_sub_parens item))) = ''''"
    by (simp_all add: title_join)
  from i have "join '' '' (map title (split_ws (re_sub_parens item)))
      \<in> set (generate_location_list c s ci a)"
    unfolding set_generate_location_list by (rule imageI)
  then show "'''' \<in> set (generate_location_list c s ci a)"
    unfolding e .
next
  show "length (generate_location_list c s ci a) = card (set (c @ s @ ci @ a))"
    by (rule length_generate_location_list)
qed

text \<open>The amended claim C9 at a country table that holds a bare parenthetical.\<close>

theorem empty_location_kept_witness:
  "''( old )'' \<in> set ([''Peru'', ''( old )''] @ [] @ [] @ []) \<and>
   title (join '' '' (split_ws (re_sub_parens ''( old )''))) = '''' \<and>
   '''' \<in> set (generate_location_list [''Peru'', ''( old )''] [] [] []) \<and>
   generate_location_list [''Peru'', ''( old )''] [] [] [] = ['''', ''Peru'']"
proof -
  have m: "''( old )'' \<in> set ([''Peru'', ''( old )''] @ [] @ [] @ [])"
    by simp
  have e: "title (join '' '' (split_ws (re_sub_parens ''( old )''))) = ''''"
    by code_simp
  have v: "generate_location_list [''Peru'', ''( old )''] [] [] [] = ['''', ''Peru'']"
    by code_simp
  note t = empty_location_kept [of "''( old )''" "[''Peru'', ''( old )'']" "[]" "[]" "[]"]
  show ?thesis
    using m e t [THEN conjunct1, THEN mp, OF conjI, OF m e] v by (intro conjI)
qed

text \<open>
  Claim C5, as stated, says that every category's deny-list is sorted. The DATE\_TIME
  list is the concatenation of the month, weekday and time lists in the order they are
  written, and in the registry of \<open>run\<close> it is not sorted (\<open>"January"\<close> comes before
  \<open>"February"\<close>).
\<close>

theorem date_time_sorted_counterexample:
  "\<not> isl (run id remdups [] [] [] [] [] []) \<and>
   \<not> sorted (deny_list (projr (run id remdups [] [] [] [] [] [])) DATE_TIME)"
  by code_simp

text \<open>
  Claim C5, amended. In the registry that \<open>run\<close> builds, for every input: the PERSON
  deny-list is lexicographically sorted and has no duplicates; the LOCATION deny-list,
  compiled from the four tables of \<open>run\<close>, is lexicographically sorted and has no
  duplicates; the DATE\_TIME deny-list has no duplicates and is not sorted, its terms
  staying in the order in which they are written; the EMAIL\_DOMAIN deny-list has no
  duplicates and holds exactly the title-cased first labels of the domains, in whatever
  order \<open>list(set(...))\<close> yields. The list of \<open>get_unique_names\<close> is sorted and
  duplicate-free on any input.
\<close>

theorem compiled_lists_sorted_distinct:
  "sorted (get_unique_names name_list rl) \<and>
   distinct (get_unique_names name_list rl) \<and>
   (run u ls txt_files csv_files c s ci a = Inr reg \<longrightarrow>
      sorted (deny_list reg PERSON) \<and> distinct (deny_list reg PERSON) \<and>
      distinct (deny_list reg DATE_TIME) \<and> \<not> sorted (deny_list reg DATE_TIME) \<and>
      (is_list_set ls \<longrightarrow>
         distinct (deny_list reg EMAIL_DOMAIN) \<and>
         set (deny_list reg EMAIL_DOMAIN) =
           (\<lambda>domain. title (first_piece CHR ''.'' domain)) ` set email_domains)) \<and>
   (run u ls txt_files csv_files country_names state_names city_names airport_names = Inr reg' \<longrightarrow>
      sorted (deny_list reg' LOCATION) \<and> distinct (deny_list reg' LOCATION))"
proof (intro conjI impI)
  show "sorted (get_unique_names name_list rl)"
    by (rule sorted_get_unique_names)
  show "distinct (get_unique_names name_list rl)"
    by (rule distinct_get_unique_names)
next
  assume r: "run u ls txt_files csv_files c s ci a = Inr reg"
  from run_Inr(1) [OF r] obtain nl where p: "person reg = get_unique_names nl remove_list" ..
  show "sorted (deny_list reg PERSON)"
    by (simp add: p sorted_get_unique_names)
  show "distinct (deny_list reg PERSON)"
    by (simp add: p distinct_get_unique_names)
  have "distinct (get_datetime_recognizer month_list week_list time_list)"
    by code_simp
  then show "distinct (deny_list reg DATE_TIME)"
    by (simp add: run_Inr(3) [OF r])
  show "\<not> sorted (deny_list reg DATE_TIME)"
    using date_time_not_sorted by (simp add: run_Inr(3) [OF r])
  show "distinct (deny_list reg EMAIL_DOMAIN)" if "is_list_set ls"
    using is_list_set_distinct(1) [OF that]
    by (simp add: run_Inr(4) [OF r] get_email_recognizer_def)
  show "set (deny_list reg EMAIL_DOMAIN) =
      (\<lambda>domain. title (first_piece CHR ''.'' domain)) ` set email_domains" if "is_list_set ls"
    using is_list_set_distinct(2) [OF that]
    by (simp add: run_Inr(4) [OF r] get_email_recognizer_def)
next
  assume r: "run u ls txt_files csv_files country_names state_names city_names airport_names = Inr reg'"
  show "sorted (deny_list reg' LOCATION)"
    using location_list_of_run(1) by (simp add: run_Inr(2) [OF r])
  show "distinct (deny_list reg' LOCATION)"
    using location_list_of_run(2) by (simp add: run_Inr(2) [OF r])
qed

text \<open>
  The amended claim C5 at a run over one corpus file and the tables of \<open>run\<close>, with
  \<open>remdups\<close> for the order of \<open>list(set(...))\<close>.
\<close>

theorem compiled_lists_sorted_distinct_witness:
  "is_list_set remdups \<and>
   \<not> isl (run id remdups [[\<lparr>Name = Some ''Zoe Ann'', Gender = ''F'', Number = Num 2000\<rparr>]] []
            country_names state_names city_names airport_names) \<and>
   person (projr (run id remdups [[\<lparr>Name = Some ''Zoe Ann'', Gender = ''F'', Number = Num 2000\<rparr>]] []
            country_names state_names city_names airport_names)) =
     [''Ann'', ''Chantelle'', ''Johnston'', ''Kirkland'', ''Maryellen'', ''Zoe''] \<and>
   sorted (person (projr (run id remdups [[\<lparr>Name = Some ''Zoe Ann'', Gender = ''F'', Number = Num 2000\<rparr>]] []
            country_names state_names city_names airport_names))) \<and>
   distinct (email_domain (projr (run id remdups [[\<lparr>Name = Some ''Zoe Ann'', Gender = ''F'', Number = Num 2000\<rparr>]] []
            country_names state_names city_names airport_names))) \<and>
   sorted (location (projr (run id remdups [[\<lparr>Name = Some ''Zoe Ann'', Gender = ''F'', Number = Num 2000\<rparr>]] []
            country_names state_names city_names airport_names)))"
proof -
  let ?txt = "[[\<lparr>Name = Some ''Zoe Ann'', Gender = ''F'', Number = Num 2000\<rparr>]]"
  let ?run = "run id remdups ?txt [] country_names state_names city_names airport_names"
  let ?reg = "\<lparr>person = get_unique_names
                  [''Zoe Ann'', ''Maryellen'', ''Chantelle'', ''Kirkland'', ''Johnston''] remove_list,
               location = generate_location_list country_names state_names city_names airport_names,
               date_time = get_datetime_recognizer month_list week_list time_list,
               email_domain = get_email_recognizer remdups email_domains\<rparr>"
  have l: "is_list_set remdups"
    by (rule is_list_set_remdups)
  have r: "?run = Inr ?reg"
    by (simp add: run_def select_rows_def Let_def)
  then have i: "\<not> isl ?run"
    by simp
  have "get_unique_names [''Zoe Ann'', ''Maryellen'', ''Chantelle'', ''Kirkland'', ''Johnston'']
      remove_list = [''Ann'', ''Chantelle'', ''Johnston'', ''Kirkland'', ''Maryellen'', ''Zoe'']"
    by code_simp
  then have v: "person (projr ?run) =
      [''Ann'', ''Chantelle'', ''Johnston'', ''Kirkland'', ''Maryellen'', ''Zoe'']"
    by (simp add: r)
  have pr: "projr ?run = ?reg"
    by (simp add: r)
  note t = compiled_lists_sorted_distinct [where u = id and ls = remdups and txt_files = ?txt
      and csv_files = "[]" and reg = ?reg and reg' = ?reg and c = country_names and s = state_names
      and ci = city_names and a = airport_names]
  note t1 = t [THEN conjunct2, THEN conjunct2, THEN conjunct1, THEN mp, OF r]
  note t2 = t [THEN conjunct2, THEN conjunct2, THEN conjunct2, THEN mp, OF r]
  have s: "sorted (person (projr ?run))"
    using t1 [THEN conjunct1] by (simp add: pr)
  have d: "distinct (email_domain (projr ?run))"
    using t1 [THEN conjunct2, THEN conjunct2, THEN conjunct2, THEN conjunct2, THEN mp, OF l,
        THEN conjunct1]
    by (simp add: pr)
  have o: "sorted (location (projr ?run))"
    using t2 [THEN conjunct1] by (simp add: pr)
  from l i v s d o show ?thesis by (intro conjI)
qed

text \<open>
  Claim C6, as stated, says that every month name is an element of the DATE\_TIME
  deny-list. \<open>"May"\<close> is commented out of the month list of \<open>run\<close> and is not in
  the deny-list.
\<close>

theorem month_may_counterexample:
  "''May'' \<in> set spec_month_names \<and>
   \<not> isl (run id remdups [] [] [] [] [] []) \<and>
   ''May'' \<notin> set (date_time (projr (run id remdups [] [] [] [] [] [])))"
  by code_simp

text \<open>
  Claim C6, amended. The DATE\_TIME deny-list that \<open>run\<close> builds consists exactly of
  the names of the months other than \<open>"May"\<close>, the names of the seven weekdays, and the
  two terms \<open>"Noon"\<close> and \<open>"Midnight"\<close>: twenty terms, in this order.
\<close>

theorem date_time_deny_list:
  "run u ls txt csv c s ci a = Inr reg \<Longrightarrow>
   date_time reg =
     [''January'', ''February'', ''March'', ''April'', ''June'', ''July'', ''August'',
      ''September'', ''October'', ''November'', ''December'',
      ''Monday'', ''Tuesday'', ''Wednesday'', ''Thursday'', ''Friday'', ''Saturday'', ''Sunday'',
      ''Noon'', ''Midnight''] \<and>
   set (date_time reg) =
     (set spec_month_names - {''May''}) \<union> set spec_weekday_names \<union> {''Noon'', ''Midnight''}"
proof -
  assume r: "run u ls txt csv c s ci a = Inr reg"
  have l: "get_datetime_recognizer month_list week_list time_list =
     [''January'', ''February'', ''March'', ''April'', ''June'', ''July'', ''August'',
      ''September'', ''October'', ''November'', ''December'',
      ''Monday'', ''Tuesday'', ''Wednesday'', ''Thursday'', ''Friday'', ''Saturday'', ''Sunday'',
      ''Noon'', ''Midnight'']"
    by code_simp
  have s: "set (get_datetime_recognizer month_list week_list time_list) =
     (set spec_month_names - {''May''}) \<union> set spec_weekday_names \<union> {''Noon'', ''Midnight''}"
    by code_simp
  show ?thesis
    unfolding run_Inr(3) [OF r] using l s by (intro conjI)
qed

text \<open>The amended claim C6 at a run with no corpus file and no location.\<close>

theorem date_time_deny_list_witness:
  "\<not> isl (run id remdups [] [] [] [] [] []) \<and>
   date_time (projr (run id remdups [] [] [] [] [] [])) =
     [''January'', ''February'', ''March'', ''April'', ''June'', ''July'', ''August'',
      ''September'', ''October'', ''November'', ''December'',
      ''Monday'', ''Tuesday'', ''Wednesday'', ''Thursday'', ''Friday'', ''Saturday'', ''Sunday'',
      ''Noon'', ''Midnight'']"
proof -
  let ?run = "run id remdups [] [] [] [] [] []"
  have i: "\<not> isl ?run"
    by code_simp
  then have r: "?run = Inr (projr ?run)"
    by (cases ?run) simp_all
  from i date_time_deny_list [OF r, THEN conjunct1] show ?thesis by (intro conjI)
qed

section \<open>Claims about the single-character pattern and the corpus\<close>

text \<open>
  Claim C7, as stated, says that on the text \<open>"A B C"\<close> the pattern matches \<open>"B"\<close>
  and \<open>"C"\<close>. The look-ahead \<open>(?= )\<close> asks for a space after the letter, and
  \<open>"C"\<close>, at offset 4, ends the text: the only match is \<open>"B"\<close>, at offsets 2 to 3.
\<close>

theorem single_char_counterexample:
  "''A B C'' ! 4 = CHR ''C'' \<and>
   single_char_matches ''A B C'' = [(2, 3)] \<and>
   (4, 5) \<notin> set (single_char_matches ''A B C'')"
  by code_simp

text \<open>
  Claim C7, amended. On the text \<open>"A B C"\<close> the recognizer's pattern gives one match,
  for \<open>"B"\<close>, and none for \<open>"A"\<close> or \<open>"C"\<close>. More generally, a single upper-case
  letter other than \<open>A\<close> and \<open>I\<close> matches whenever a space character stands right
  before it and a space character right after it; every match is one character with a
  space right before and a space right after it, so a letter at the start or at the end
  of the text does not match; and \<open>A\<close> and \<open>I\<close> never match, whatever their position.
\<close>

theorem single_char_rule:
  "single_char_matches ''A B C'' = [(2, 3)] \<and>
   (0 < s \<and> s + 1 < length t \<and> t ! (s - 1) = CHR '' '' \<and> t ! (s + 1) = CHR '' '' \<and>
    is_upper (t ! s) \<and> t ! s \<noteq> CHR ''A'' \<and> t ! s \<noteq> CHR ''I'' \<longrightarrow>
      (s, s + 1) \<in> set (single_char_matches t)) \<and>
   ((s, e) \<in> set (single_char_matches t) \<longrightarrow>
      0 < s \<and> e = s + 1 \<and> e < length t \<and>
      t ! (s - 1) = CHR '' '' \<and> t ! e = CHR '' '' \<and>
      t ! s \<noteq> CHR ''A'' \<and> t ! s \<noteq> CHR ''I'')"
proof (intro conjI)
  show "single_char_matches ''A B C'' = [(2, 3)]"
    by code_simp
next
  show "0 < s \<and> s + 1 < length t \<and> t ! (s - 1) = CHR '' '' \<and> t ! (s + 1) = CHR '' '' \<and>
    is_upper (t ! s) \<and> t ! s \<noteq> CHR ''A'' \<and> t ! s \<noteq> CHR ''I'' \<longrightarrow>
      (s, s + 1) \<in> set (single_char_matches t)"
    using single_char_matches_iff [of s "s + 1" t] in_class_upper [of "t ! s"] by blast
next
  show "(s, e) \<in> set (single_char_matches t) \<longrightarrow>
      0 < s \<and> e = s + 1 \<and> e < length t \<and>
      t ! (s - 1) = CHR '' '' \<and> t ! e = CHR '' '' \<and>
      t ! s \<noteq> CHR ''A'' \<and> t ! s \<noteq> CHR ''I''"
    using single_char_matches_iff [of s e t] in_class_not_A_I [of "t ! s"] by blast
qed

text \<open>
  The amended claim C7 on a text with the letters \<open>I\<close>, \<open>Q\<close> and \<open>A\<close> between
  spaces: \<open>Q\<close>, at offsets 3 to 4, matches and is the only match.
\<close>

theorem single_char_rule_witness:
  "single_char_matches '' I Q A '' = [(3, 4)] \<and>
   (3, 3 + 1) \<in> set (single_char_matches '' I Q A '') \<and>
   '' I Q A '' ! (3 - 1) = CHR '' '' \<and> '' I Q A '' ! (3 + 1) = CHR '' '' \<and>
   '' I Q A '' ! 3 \<noteq> CHR ''A'' \<and> '' I Q A '' ! 3 \<noteq> CHR ''I''"
proof -
  have v: "single_char_matches '' I Q A '' = [(3, 4)]"
    by code_simp
  have q: "(0::nat) < 3 \<and> 3 + 1 < length '' I Q A '' \<and>
      '' I Q A '' ! (3 - 1) = CHR '' '' \<and> '' I Q A '' ! (3 + 1) = CHR '' '' \<and>
      is_upper ('' I Q A '' ! 3) \<and> '' I Q A '' ! 3 \<noteq> CHR ''A'' \<and> '' I Q A '' ! 3 \<noteq> CHR ''I''"
    by code_simp
  note t = single_char_rule [of 3 "'' I Q A ''" "3 + 1"]
  note m = t [THEN conjunct2, THEN conjunct1, THEN mp, OF q]
  note n = t [THEN conjunct2, THEN conjunct2, THEN mp, OF m]
  note n3 = n [THEN conjunct2, THEN conjunct2, THEN conjunct2]
  from v m n3 [THEN conjunct1] n3 [THEN conjunct2, THEN conjunct1]
    n3 [THEN conjunct2, THEN conjunct2, THEN conjunct1]
    n3 [THEN conjunct2, THEN conjunct2, THEN conjunct2]
  show ?thesis by (intro conjI)
qed




end
